theory Spec2Isabelle
  imports Complex_Main
begin

section \<open>Values shared by the speech engines\<close>

text \<open>
  Modelled from the spec: the enumerations of \<^verbatim>\<open>QTextToSpeech\<close> and \<^verbatim>\<open>QVoice\<close>. The
  headers that declare them are not among the sources, so the values are the ones that
  the specification lists and the engine code names: the four playback states, the error
  reasons, the hint given to \<^verbatim>\<open>stop\<close> and \<^verbatim>\<open>pause\<close>, and the gender and age of a voice.
\<close>

datatype State = Ready | Speaking | Paused | Error

datatype ErrorReason = NoError | Initialization | Configuration | Input

datatype BoundaryHint = Default | Immediate | Word

datatype Gender = Male | Female | Unknown

datatype Age = Adult | Other

text \<open>
  A \<^verbatim>\<open>QLocale\<close> is a language with a territory. Only the languages and territories that
  the mock engine builds or can parse are listed; \<open>C\<close> with \<open>AnyTerritory\<close> stands for
  every other locale, none of which the engine supports.
\<close>

datatype Language = C | English | NorwegianBokmal | Finnish

datatype Territory = AnyTerritory | UnitedKingdom | UnitedStates | Norway | Finland

datatype QLocale = QLocale (language: Language) (territory: Territory)

text \<open>
  \<^verbatim>\<open>QLocale::bcp47Name()\<close> and the constructor \<^verbatim>\<open>QLocale(const QString &)\<close> belong to
  the Qt core library. They are modelled after the Qt documentation on the locales above:
  the BCP47 name leaves out the territory that the language implies, and a name is parsed
  with either separator. A name that denotes none of the listed locales is mapped to the
  \<open>C\<close> locale.
\<close>

fun bcp47Name :: "QLocale \<Rightarrow> string" where
  "bcp47Name (QLocale English UnitedKingdom) = ''en-GB''"
| "bcp47Name (QLocale English _) = ''en''"
| "bcp47Name (QLocale NorwegianBokmal _) = ''nb''"
| "bcp47Name (QLocale Finnish _) = ''fi''"
| "bcp47Name (QLocale C _) = ''en''"

definition QLocale_fromName :: "string \<Rightarrow> QLocale" where
  "QLocale_fromName n =
     (if n = ''en-GB'' \<or> n = ''en_GB'' then QLocale English UnitedKingdom
      else if n = ''en'' \<or> n = ''en-US'' \<or> n = ''en_US'' then QLocale English UnitedStates
      else if n = ''nb'' \<or> n = ''nb-NO'' \<or> n = ''nb_NO'' then QLocale NorwegianBokmal Norway
      else if n = ''fi'' \<or> n = ''fi-FI'' \<or> n = ''fi_FI'' then QLocale Finnish Finland
      else QLocale C AnyTerritory)"

text \<open>
  A voice is the tuple that \<^verbatim>\<open>createVoice\<close> stores; two voices are equal when all five
  components are. \<^verbatim>\<open>voiceData(voice).toString()\<close> reads the last component.
\<close>

record QVoice =
  voice_name :: string
  voice_locale :: QLocale
  voice_gender :: Gender
  voice_age :: Age
  voice_data :: string

definition createVoice :: "string \<Rightarrow> QLocale \<Rightarrow> Gender \<Rightarrow> Age \<Rightarrow> string \<Rightarrow> QVoice" where
  "createVoice n l g a d =
     \<lparr>voice_name = n, voice_locale = l, voice_gender = g, voice_age = a, voice_data = d\<rparr>"

definition voiceData :: "QVoice \<Rightarrow> string" where
  "voiceData v = voice_data v"

definition QVoice_default :: QVoice where
  "QVoice_default = createVoice [] (QLocale C AnyTerritory) Unknown Other []"

text \<open>The signals an engine emits, in the order of emission.\<close>

datatype signal =
    stateChanged State
  | sayingWord int int
  | errorOccurred ErrorReason string

text \<open>
  What stops a call before it returns. \<^verbatim>\<open>Q_ASSERT\<close> aborts in a debug build and is
  compiled out in a release build; the model follows the debug build, so that a result
  \<open>Inr\<close> is the result of both builds. \<^verbatim>\<open>QString::sliced\<close> and \<^verbatim>\<open>QList::first\<close>
  have preconditions of their own.
\<close>

datatype failure =
    Assert_state_Speaking
  | Assert_text_length
  | Assert_Paused_or_timer_active
  | Assert_unsupported_locale
  | Sliced_out_of_range
  | First_of_empty_list

section \<open>String operations of QString used by the mock engine\<close>

text \<open>
  The regular expression \<^verbatim>\<open>\W+\<close> matches a longest run of characters other than ASCII
  letters, digits and the underscore. A text is a list of characters, one per code unit.
\<close>

definition isWordChar :: "char \<Rightarrow> bool" where
  "isWordChar c =
     (let n = (of_char c :: nat)
      in (48 \<le> n \<and> n \<le> 57) \<or> (65 \<le> n \<and> n \<le> 90) \<or> n = 95 \<or> (97 \<le> n \<and> n \<le> 122))"

text \<open>
  \<^verbatim>\<open>text.indexOf(QRegularExpression("\\W+"), from, &match)\<close>: the position of the leftmost
  match at or after \<open>from\<close> together with the length of \<^verbatim>\<open>match.captured()\<close>, or \<open>-1\<close>
  and a match left empty. A negative \<open>from\<close> counts from the end of the text.
\<close>

definition indexOf_nonword :: "string \<Rightarrow> int \<Rightarrow> int \<times> nat" where
  "indexOf_nonword text from =
     (let n = int (length text);
          off = (if from < 0 then from + n else from)
      in if off < 0 \<or> n < off then (- 1, 0)
         else
           let p = nat off + length (takeWhile isWordChar (drop (nat off) text))
           in if p < length text
              then (int p, length (takeWhile (\<lambda>c. \<not> isWordChar c) (drop p text)))
              else (- 1, 0))"

primrec lastIndexOf_aux :: "char \<Rightarrow> string \<Rightarrow> nat \<Rightarrow> int \<Rightarrow> int" where
  "lastIndexOf_aux c [] i found = found"
| "lastIndexOf_aux c (x # xs) i found =
     lastIndexOf_aux c xs (Suc i) (if x = c then int i else found)"

definition lastIndexOf :: "string \<Rightarrow> char \<Rightarrow> int" where
  "lastIndexOf s c = lastIndexOf_aux c s 0 (- 1)"

definition left :: "string \<Rightarrow> int \<Rightarrow> string" where
  "left s n = (if n < 0 \<or> int (length s) \<le> n then s else take (nat n) s)"

definition first :: "'a list \<Rightarrow> failure + 'a" where
  "first xs = (case xs of [] \<Rightarrow> Inl First_of_empty_list | x # _ \<Rightarrow> Inr x)"

section \<open>The mock engine\<close>

text \<open>
  The members that the mock engine and the SAPI engine both declare, under the same names,
  are the fields of the record \<open>QTextToSpeechEngine\<close>, which each engine extends;
  \<open>emitted\<close> records the signals emitted so far.

  Of the members of \<^verbatim>\<open>QTextToSpeechEngineMock\<close>, \<open>m_timer\<close> is the \<^verbatim>\<open>QBasicTimer\<close>, of
  which the engine only observes whether it is active; the interval \<^verbatim>\<open>wordTime()\<close> is
  declared in the missing header and plays no part in what follows. The three
  \<^verbatim>\<open>double\<close> members hold the reals they denote.
\<close>

record QTextToSpeechEngine =
  emitted :: "signal list"
  m_state :: State
  m_errorReason :: ErrorReason
  m_errorString :: string
  m_pauseRequested :: bool

record QTextToSpeechEngineMock = QTextToSpeechEngine +
  m_text :: string
  m_locale :: QLocale
  m_voice :: QVoice
  m_timer :: bool
  m_rate :: real
  m_pitch :: real
  m_volume :: real
  m_currentIndex :: int

definition emit ::
  "signal \<Rightarrow> 'a QTextToSpeechEngine_scheme \<Rightarrow> 'a QTextToSpeechEngine_scheme" where
  "emit sg s = s\<lparr>emitted := emitted s @ [sg]\<rparr>"

definition availableLocales :: "QLocale list" where
  "availableLocales =
     [QLocale English UnitedKingdom, QLocale NorwegianBokmal Norway, QLocale Finnish Finland]"

definition availableVoices :: "QTextToSpeechEngineMock \<Rightarrow> failure + QVoice list" where
  "availableVoices s =
     (let voiceData = bcp47Name (m_locale s)
      in case language (m_locale s) of
           English \<Rightarrow> Inr [createVoice ''Bob'' (m_locale s) Male Adult (voiceData @ ''-1''),
                          createVoice ''Anne'' (m_locale s) Female Adult (voiceData @ ''-2'')]
         | NorwegianBokmal \<Rightarrow>
             Inr [createVoice ''Eivind'' (m_locale s) Male Adult (voiceData @ ''-1''),
                  createVoice ''Kjersti'' (m_locale s) Female Adult (voiceData @ ''-2'')]
         | Finnish \<Rightarrow> Inr [createVoice ''Kari'' (m_locale s) Male Adult (voiceData @ ''-1''),
                          createVoice ''Anneli'' (m_locale s) Female Adult (voiceData @ ''-2'')]
         | C \<Rightarrow> Inl Assert_unsupported_locale)"

text \<open>
  The constructor. Its argument holds the members as the class declaration initialises
  them (the declaration is in the missing header); a default-constructed
  \<^verbatim>\<open>QBasicTimer\<close> is inactive.
\<close>

definition QTextToSpeechEngineMock_new ::
  "QTextToSpeechEngineMock \<Rightarrow> failure + QTextToSpeechEngineMock" where
  "QTextToSpeechEngineMock_new members =
     (let s0 = members\<lparr>m_timer := False\<rparr>
      in case first availableLocales of
           Inl f \<Rightarrow> Inl f
         | Inr l \<Rightarrow>
             let s1 = s0\<lparr>m_locale := l\<rparr>
             in case availableVoices s1 of
                  Inl f \<Rightarrow> Inl f
                | Inr voices \<Rightarrow>
                    (case first voices of
                       Inl f \<Rightarrow> Inl f
                     | Inr v \<Rightarrow>
                         Inr (s1\<lparr>m_voice := v, m_state := Ready, m_errorReason := NoError\<rparr>)))"

definition say :: "string \<Rightarrow> QTextToSpeechEngineMock \<Rightarrow> QTextToSpeechEngineMock" where
  "say text s =
     emit (stateChanged Speaking)
       (s\<lparr>m_text := text, m_currentIndex := 0, m_timer := True, m_state := Speaking\<rparr>)"

definition stop ::
  "BoundaryHint \<Rightarrow> QTextToSpeechEngineMock \<Rightarrow> failure + QTextToSpeechEngineMock" where
  "stop boundaryHint s =
     (if m_state s = Ready \<or> m_state s = Error then Inr s
      else if \<not> (m_state s = Paused \<or> m_timer s) then Inl Assert_Paused_or_timer_active
      else Inr (emit (stateChanged Ready)
                  (s\<lparr>m_text := [], m_currentIndex := - 1, m_timer := False,
                     m_state := Ready\<rparr>)))"

definition pause :: "BoundaryHint \<Rightarrow> QTextToSpeechEngineMock \<Rightarrow> QTextToSpeechEngineMock" where
  "pause boundaryHint s =
     (if m_state s \<noteq> Speaking then s else s\<lparr>m_pauseRequested := True\<rparr>)"

definition resume :: "QTextToSpeechEngineMock \<Rightarrow> QTextToSpeechEngineMock" where
  "resume s =
     (if m_state s \<noteq> Paused then s
      else emit (stateChanged Speaking) (s\<lparr>m_timer := True, m_state := Speaking\<rparr>))"

text \<open>
  \<open>timerEvent own s\<close>: \<open>own\<close> tells whether the event is the one of \<open>m_timer\<close>
  (\<^verbatim>\<open>e->timerId() == m_timer.timerId()\<close>); any other event goes to the base class and
  leaves the members alone.
\<close>

definition timerEvent ::
  "bool \<Rightarrow> QTextToSpeechEngineMock \<Rightarrow> failure + QTextToSpeechEngineMock" where
  "timerEvent own s =
     (if \<not> own then Inr s
      else if m_state s \<noteq> Speaking then Inl Assert_state_Speaking
      else if length (m_text s) = 0 then Inl Assert_text_length
      else
        let (idx, captured) = indexOf_nonword (m_text s) (m_currentIndex s);
            nextSpace = (if idx = - 1 then int (length (m_text s)) else idx)
        in if m_currentIndex s < 0 \<or> nextSpace - m_currentIndex s < 0
              \<or> int (length (m_text s)) < nextSpace
           then Inl Sliced_out_of_range
           else
             let s1 = emit (sayingWord (m_currentIndex s) (nextSpace - m_currentIndex s)) s;
                 s2 = s1\<lparr>m_currentIndex := nextSpace + int captured\<rparr>;
                 s3 = (if int (length (m_text s2)) \<le> m_currentIndex s2
                       then emit (stateChanged Ready)
                              (s2\<lparr>m_timer := False, m_state := Ready, m_currentIndex := - 1\<rparr>)
                       else if m_pauseRequested s2
                       then emit (stateChanged Paused) (s2\<lparr>m_timer := False, m_state := Paused\<rparr>)
                       else s2)
             in Inr (s3\<lparr>m_pauseRequested := False\<rparr>))"

definition setRate :: "real \<Rightarrow> QTextToSpeechEngineMock \<Rightarrow> bool \<times> QTextToSpeechEngineMock" where
  "setRate rate s =
     (let s1 = s\<lparr>m_rate := rate\<rparr>
      in (True, if m_timer s1 then (s1\<lparr>m_timer := False\<rparr>)\<lparr>m_timer := True\<rparr> else s1))"

definition setPitch :: "real \<Rightarrow> QTextToSpeechEngineMock \<Rightarrow> bool \<times> QTextToSpeechEngineMock" where
  "setPitch pitch s = (True, s\<lparr>m_pitch := pitch\<rparr>)"

definition setLocale ::
  "QLocale \<Rightarrow> QTextToSpeechEngineMock \<Rightarrow> failure + bool \<times> QTextToSpeechEngineMock" where
  "setLocale locale s =
     (if locale \<notin> set availableLocales then Inr (False, s)
      else
        let s1 = s\<lparr>m_locale := locale\<rparr>
        in case availableVoices s1 of
             Inl f \<Rightarrow> Inl f
           | Inr voices \<Rightarrow>
               if m_voice s1 \<notin> set voices
               then (case voices of
                       [] \<Rightarrow> Inr (True, s1\<lparr>m_voice := QVoice_default\<rparr>)
                     | v # _ \<Rightarrow> Inr (True, s1\<lparr>m_voice := v\<rparr>))
               else Inr (True, s1))"

definition volume :: "QTextToSpeechEngineMock \<Rightarrow> real" where
  "volume s = m_volume s"

definition setVolume :: "real \<Rightarrow> QTextToSpeechEngineMock \<Rightarrow> bool \<times> QTextToSpeechEngineMock" where
  "setVolume v s = (if v < 0.0 \<or> v > 1.0 then (False, s) else (True, s\<lparr>m_volume := v\<rparr>))"

definition setVoice ::
  "QVoice \<Rightarrow> QTextToSpeechEngineMock \<Rightarrow> failure + bool \<times> QTextToSpeechEngineMock" where
  "setVoice voice s =
     (let voiceId = voiceData voice;
          voiceLocale = QLocale_fromName (left voiceId (lastIndexOf voiceId CHR ''-''))
      in if voiceLocale \<notin> set availableLocales then Inr (False, s)
         else
           let s1 = s\<lparr>m_locale := voiceLocale\<rparr>
           in case availableVoices s1 of
                Inl f \<Rightarrow> Inl f
              | Inr voices \<Rightarrow>
                  if voice \<notin> set voices then Inr (False, s1)
                  else Inr (True, s1\<lparr>m_voice := voice\<rparr>))"

text \<open>
  The event loop hands \<open>m_timer\<close>'s event to the engine only while that timer is active.
  \<open>tick\<close> is one such opportunity, \<open>ticks n\<close> are \<open>n\<close> of them in a row.
\<close>

definition tick :: "QTextToSpeechEngineMock \<Rightarrow> failure + QTextToSpeechEngineMock" where
  "tick s = (if m_timer s then timerEvent True s else Inr s)"

primrec ticks :: "nat \<Rightarrow> QTextToSpeechEngineMock \<Rightarrow> failure + QTextToSpeechEngineMock" where
  "ticks 0 s = Inr s"
| "ticks (Suc n) s = (case tick s of Inl f \<Rightarrow> Inl f | Inr s' \<Rightarrow> ticks n s')"

text \<open>
  The calls a client can make on the mock engine, with the timer's tick among them, and
  their effect on the members. A sequence of calls stops at the first failure.
\<close>

datatype command =
    Say string
  | Stop BoundaryHint
  | Pause BoundaryHint
  | Resume
  | SetRate real
  | SetPitch real
  | SetVolume real
  | SetLocale QLocale
  | SetVoice QVoice
  | Tick

fun exec :: "command \<Rightarrow> QTextToSpeechEngineMock \<Rightarrow> failure + QTextToSpeechEngineMock" where
  "exec (Say text) s = Inr (say text s)"
| "exec (Stop h) s = stop h s"
| "exec (Pause h) s = Inr (pause h s)"
| "exec Resume s = Inr (resume s)"
| "exec (SetRate r) s = Inr (snd (setRate r s))"
| "exec (SetPitch p) s = Inr (snd (setPitch p s))"
| "exec (SetVolume v) s = Inr (snd (setVolume v s))"
| "exec (SetLocale l) s = (case setLocale l s of Inl f \<Rightarrow> Inl f | Inr r \<Rightarrow> Inr (snd r))"
| "exec (SetVoice v) s = (case setVoice v s of Inl f \<Rightarrow> Inl f | Inr r \<Rightarrow> Inr (snd r))"
| "exec Tick s = tick s"

fun run :: "command list \<Rightarrow> QTextToSpeechEngineMock \<Rightarrow> failure + QTextToSpeechEngineMock" where
  "run [] s = Inr s"
| "run (c # cs) s = (case exec c s of Inl f \<Rightarrow> Inl f | Inr s' \<Rightarrow> run cs s')"

text \<open>The timer runs exactly while the engine is speaking.\<close>

definition timer_inv :: "QTextToSpeechEngineMock \<Rightarrow> bool" where
  "timer_inv s = (m_timer s = (m_state s = Speaking))"

text \<open>The cursor of a session in progress points into a text that is not empty.\<close>

definition cursor_in_text :: "QTextToSpeechEngineMock \<Rightarrow> bool" where
  "cursor_in_text s =
     (m_text s \<noteq> [] \<and> 0 \<le> m_currentIndex s \<and> m_currentIndex s < int (length (m_text s)))"

text \<open>
  A freshly constructed mock engine for concrete evaluation; the members not set by the
  constructor start from the values given here.
\<close>

definition mock_members :: QTextToSpeechEngineMock where
  "mock_members =
     \<lparr>emitted = [], m_state = Error, m_errorReason = Initialization, m_errorString = [],
      m_pauseRequested = False, m_text = [], m_locale = QLocale C AnyTerritory,
      m_voice = QVoice_default, m_timer = False, m_rate = 0, m_pitch = 0, m_volume = 1,
      m_currentIndex = - 1\<rparr>"

definition mock_ready :: QTextToSpeechEngineMock where
  "mock_ready =
     mock_members\<lparr>m_state := Ready, m_errorReason := NoError,
       m_locale := QLocale English UnitedKingdom,
       m_voice := createVoice ''Bob'' (QLocale English UnitedKingdom) Male Adult ''en-GB-1''\<rparr>"

section \<open>Word-like spans of a text\<close>

text \<open>
  The word-like spans of a text as the specification speaks of them: the maximal runs of
  word characters, each given by its start and its length. \<open>scan_spans p b cs\<close> reads the
  rest \<open>cs\<close> of the text from position \<open>p\<close>; \<open>b\<close> is the start of the run being read, if
  any.
\<close>

fun scan_spans :: "nat \<Rightarrow> nat option \<Rightarrow> string \<Rightarrow> (nat \<times> nat) list" where
  "scan_spans p None [] = []"
| "scan_spans p (Some b) [] = [(b, p - b)]"
| "scan_spans p None (c # cs) =
     (if isWordChar c then scan_spans (Suc p) (Some p) cs else scan_spans (Suc p) None cs)"
| "scan_spans p (Some b) (c # cs) =
     (if isWordChar c then scan_spans (Suc p) (Some b) cs
      else (b, p - b) # scan_spans (Suc p) None cs)"

definition word_spans :: "string \<Rightarrow> (nat \<times> nat) list" where
  "word_spans text = scan_spans 0 None text"

text \<open>
  The spans that the ticks of the mock engine report on a text: an empty span at the
  start when the text begins with a separator, then the word-like spans.
\<close>

definition reported_spans :: "string \<Rightarrow> (nat \<times> nat) list" where
  "reported_spans text =
     (if text \<noteq> [] \<and> \<not> isWordChar (hd text) then [(0, 0)] else []) @ word_spans text"

definition word_signal :: "nat \<times> nat \<Rightarrow> signal" where
  "word_signal sp = sayingWord (int (fst sp)) (int (snd sp))"

text \<open>
  The spans met by repeating the step of \<^verbatim>\<open>timerEvent\<close> on the rest \<open>xs\<close> of a text
  that starts at position \<open>p\<close>: the word characters up to the next separator run, then
  on behind that run.
\<close>

function tick_spans :: "nat \<Rightarrow> string \<Rightarrow> (nat \<times> nat) list" where
  "tick_spans p xs =
     (if xs = [] then []
      else
        let rest = dropWhile (\<lambda>c. \<not> isWordChar c) (dropWhile isWordChar xs)
        in (p, length (takeWhile isWordChar xs))
             # tick_spans (p + (length xs - length rest)) rest)"
  by pat_completeness auto
termination
proof (relation "measure (\<lambda>(p, xs). length xs)")
  show "wf (measure (\<lambda>(p, xs). length xs))"
    by simp
next
  fix p :: nat and xs :: string and rest :: string
  assume ne: "xs \<noteq> []"
    and rest: "rest = dropWhile (\<lambda>c. \<not> isWordChar c) (dropWhile isWordChar xs)"
  obtain x xs' where xs: "xs = x # xs'"
    using ne by (cases xs) auto
  have le1: "length (dropWhile (\<lambda>c. \<not> isWordChar c) ys) \<le> length ys" for ys
    by (rule length_dropWhile_le)
  have le2: "length (dropWhile isWordChar ys) \<le> length ys" for ys
    by (rule length_dropWhile_le)
  have "length rest < length xs"
  proof (cases "isWordChar x")
    case True
    have "length rest \<le> length (dropWhile isWordChar xs')"
      using True le1 [of "dropWhile isWordChar xs'"] by (simp add: rest xs)
    also have "\<dots> \<le> length xs'"
      by (rule le2)
    finally show ?thesis
      by (simp add: xs)
  next
    case False
    have "length rest \<le> length xs'"
      using False le1 [of xs'] by (simp add: rest xs)
    then show ?thesis
      by (simp add: xs)
  qed
  then show "((p + (length xs - length rest), rest), (p, xs)) \<in> measure (\<lambda>(p, xs). length xs)"
    by simp
qed

declare tick_spans.simps [simp del]

section \<open>The SAPI engine\<close>

text \<open>
  The SAPI engine drives a native \<^verbatim>\<open>ISpVoice\<close>. Of that object the model keeps the calls
  made on it, in order (\<open>m_voice_calls\<close>, for the member \<^verbatim>\<open>m_voice\<close>); what a native call
  answers is an argument of the function that makes the call.
\<close>

datatype ISpVoice_call =
    SpSetInterest
  | SpSetNotifyCallbackInterface
  | SpSpeak string
  | SpPurge
  | SpPause
  | SpResume
  | SpSetVolume real

record QTextToSpeechEngineSapi = QTextToSpeechEngine +
  currentText :: string
  textOffset :: int
  m_voice_calls :: "ISpVoice_call list"

definition call_voice :: "ISpVoice_call \<Rightarrow> QTextToSpeechEngineSapi \<Rightarrow> QTextToSpeechEngineSapi" where
  "call_voice c s = s\<lparr>m_voice_calls := m_voice_calls s @ [c]\<rparr>"

definition setError ::
  "ErrorReason \<Rightarrow> string \<Rightarrow> QTextToSpeechEngineSapi \<Rightarrow> QTextToSpeechEngineSapi" where
  "setError reason string s =
     (let s1 = s\<lparr>m_errorReason := reason, m_errorString := string\<rparr>
      in if reason \<noteq> NoError then s1
         else
           let s2 = (if m_state s1 \<noteq> Error then emit (stateChanged Error) (s1\<lparr>m_state := Error\<rparr>)
                     else s1)
           in emit (errorOccurred (m_errorReason s2) (m_errorString s2)) s2)"

text \<open>
  The constructor, from the members as the class declaration initialises them. Its
  arguments tell whether \<^verbatim>\<open>CoInitialize\<close> and \<^verbatim>\<open>CoCreateInstance\<close> succeeded and whether
  \<^verbatim>\<open>updateVoices\<close> found a voice.
\<close>

definition QTextToSpeechEngineSapi_new ::
  "bool \<Rightarrow> bool \<Rightarrow> bool \<Rightarrow> QTextToSpeechEngineSapi \<Rightarrow> QTextToSpeechEngineSapi" where
  "QTextToSpeechEngineSapi_new coInitialized created voicesFound members =
     (if \<not> coInitialized then members
      else if \<not> created
      then setError Initialization ''Could not initialize text-to-speech engine.'' members
      else
        let s1 = call_voice SpSetNotifyCallbackInterface (call_voice SpSetInterest members)
        in if \<not> voicesFound then setError Configuration ''No voices available.'' s1
           else s1\<lparr>m_state := Ready, m_errorReason := NoError\<rparr>)"

definition resume_sapi :: "QTextToSpeechEngineSapi \<Rightarrow> QTextToSpeechEngineSapi" where
  "resume_sapi s =
     (if m_pauseRequested s \<or> m_state s = Paused
      then call_voice SpResume (s\<lparr>m_pauseRequested := False\<rparr>)
      else s)"

definition stop_sapi :: "BoundaryHint \<Rightarrow> QTextToSpeechEngineSapi \<Rightarrow> QTextToSpeechEngineSapi" where
  "stop_sapi boundaryHint s =
     (let s1 = (if m_state s = Paused \<or> m_pauseRequested s then resume_sapi s else s)
      in (call_voice SpPurge s1)\<lparr>currentText := []\<rparr>)"

text \<open>
  \<open>say_sapi prefix spoken text s\<close>: \<open>prefix\<close> is the pitch markup that the engine puts
  before the text (a formatted \<^verbatim>\<open>double\<close>), \<open>spoken\<close> tells whether the native
  \<^verbatim>\<open>Speak\<close> succeeded.
\<close>

definition say_sapi ::
  "string \<Rightarrow> bool \<Rightarrow> string \<Rightarrow> QTextToSpeechEngineSapi \<Rightarrow> QTextToSpeechEngineSapi" where
  "say_sapi prefix spoken text s =
     (if text = [] then s
      else
        let s1 = (if m_state s \<noteq> Ready then stop_sapi Default s else s);
            s2 = s1\<lparr>currentText := prefix @ text, textOffset := int (length prefix)\<rparr>;
            s3 = call_voice (SpSpeak (currentText s2)) s2
        in if \<not> spoken then setError Input ''Speech synthesizing failure.'' s3 else s3)"

definition setVolume_sapi ::
  "real \<Rightarrow> QTextToSpeechEngineSapi \<Rightarrow> bool \<times> QTextToSpeechEngineSapi" where
  "setVolume_sapi v s = (True, call_voice (SpSetVolume (v * 100)) s)"

text \<open>A SAPI engine in state \<open>Ready\<close> with nothing emitted and no native call made.\<close>

definition sapi_members :: QTextToSpeechEngineSapi where
  "sapi_members =
     \<lparr>emitted = [], m_state = Ready, m_errorReason = NoError, m_errorString = [],
      m_pauseRequested = False, currentText = [], textOffset = 0, m_voice_calls = []\<rparr>"

section \<open>Concrete engines\<close>

text \<open>
  Engines at which the statements below are evaluated: the mock engine while it speaks the
  text \<open>a b\<close> and paused behind the first word of that text; the
  SAPI engine with a pause requested that no notification has confirmed yet.
\<close>

definition speaking_a_b :: QTextToSpeechEngineMock where
  "speaking_a_b = say ''a b'' mock_ready"

definition paused_a_b :: QTextToSpeechEngineMock where
  "paused_a_b =
     speaking_a_b\<lparr>emitted := [stateChanged Speaking, sayingWord 0 1, stateChanged Paused],
       m_currentIndex := 2, m_timer := False, m_state := Paused\<rparr>"

definition sapi_pause_pending :: QTextToSpeechEngineSapi where
  "sapi_pause_pending = sapi_members\<lparr>m_state := Speaking, m_pauseRequested := True\<rparr>"

section \<open>One step of the timer\<close>

lemma tick_spans_Nil: "tick_spans p [] = []"
  by (simp add: tick_spans.simps)

lemma tick_spans_step:
  "xs \<noteq> [] \<Longrightarrow> tick_spans p xs =
     (p, length (takeWhile isWordChar xs))
       # tick_spans (p + (length xs - length (dropWhile (\<lambda>c. \<not> isWordChar c) (dropWhile isWordChar xs))))
           (dropWhile (\<lambda>c. \<not> isWordChar c) (dropWhile isWordChar xs))"
  by (subst tick_spans.simps) (simp add: Let_def)

lemma length_split_twice:
  "length xs = length (takeWhile P xs) + length (takeWhile Q (dropWhile P xs))
      + length (dropWhile Q (dropWhile P xs))"
proof -
  have "length xs = length (takeWhile P xs) + length (dropWhile P xs)"
    by (metis length_append takeWhile_dropWhile_id)
  moreover have "length (dropWhile P xs)
      = length (takeWhile Q (dropWhile P xs)) + length (dropWhile Q (dropWhile P xs))"
    by (metis length_append takeWhile_dropWhile_id)
  ultimately show ?thesis by simp
qed

lemma rest_shorter:
  assumes "xs \<noteq> []"
  shows "length (dropWhile (\<lambda>c. \<not> isWordChar c) (dropWhile isWordChar xs)) < length xs"
proof (cases xs)
  case Nil
  with assms show ?thesis by simp
next
  case (Cons x xs')
  show ?thesis
  proof (cases "isWordChar x")
    case True
    have "length (dropWhile (\<lambda>c. \<not> isWordChar c) (dropWhile isWordChar xs'))
        \<le> length (dropWhile isWordChar xs')"
      by (rule length_dropWhile_le)
    also have "\<dots> \<le> length xs'"
      by (rule length_dropWhile_le)
    finally show ?thesis using True Cons by simp
  next
    case False
    have "length (dropWhile (\<lambda>c. \<not> isWordChar c) xs') \<le> length xs'"
      by (rule length_dropWhile_le)
    then show ?thesis using False Cons by simp
  qed
qed

lemma indexOf_nonword_at:
  assumes "p \<le> length T"
  shows "indexOf_nonword T (int p) =
     (if dropWhile isWordChar (drop p T) = [] then (- 1, 0)
      else (int (p + length (takeWhile isWordChar (drop p T))),
            length (takeWhile (\<lambda>c. \<not> isWordChar c) (dropWhile isWordChar (drop p T)))))"
proof -
  let ?xs = "drop p T"
  let ?pre = "takeWhile isWordChar ?xs"
  have len: "length ?xs = length ?pre + length (dropWhile isWordChar ?xs)"
    by (metis length_append takeWhile_dropWhile_id)
  have dr: "drop (p + length ?pre) T = dropWhile isWordChar ?xs"
    by (metis add.commute drop_drop dropWhile_eq_drop)
  have lx: "length ?xs = length T - p" by simp
  show ?thesis
  proof (cases "dropWhile isWordChar ?xs = []")
    case True
    then have "length (dropWhile isWordChar ?xs) = 0" by simp
    then have "p + length ?pre = length T" using len lx assms by linarith
    then show ?thesis using True assms by (simp add: indexOf_nonword_def Let_def)
  next
    case False
    then have "0 < length (dropWhile isWordChar ?xs)" by simp
    then have "p + length ?pre < length T" using len lx assms by linarith
    then show ?thesis using False assms dr by (simp add: indexOf_nonword_def Let_def)
  qed
qed

lemma timerEvent_step:
  assumes sp: "m_state s = Speaking" and c: "m_currentIndex s = int p" and p: "p < length (m_text s)"
  shows "timerEvent True s =
     Inr (let xs = drop p (m_text s);
              rest = dropWhile (\<lambda>c. \<not> isWordChar c) (dropWhile isWordChar xs);
              s1 = emit (sayingWord (int p) (int (length (takeWhile isWordChar xs)))) s
          in if rest = []
             then (emit (stateChanged Ready)
                     (s1\<lparr>m_timer := False, m_state := Ready, m_currentIndex := - 1\<rparr>))
                    \<lparr>m_pauseRequested := False\<rparr>
             else if m_pauseRequested s
             then (emit (stateChanged Paused)
                     (s1\<lparr>m_currentIndex := int (p + (length xs - length rest)),
                         m_timer := False, m_state := Paused\<rparr>))
                    \<lparr>m_pauseRequested := False\<rparr>
             else s1\<lparr>m_currentIndex := int (p + (length xs - length rest)),
                     m_pauseRequested := False\<rparr>)"
proof -
  let ?T = "m_text s"
  let ?xs = "drop p ?T"
  let ?pre = "takeWhile isWordChar ?xs"
  let ?mid = "dropWhile isWordChar ?xs"
  let ?run = "takeWhile (\<lambda>c. \<not> isWordChar c) ?mid"
  let ?rest = "dropWhile (\<lambda>c. \<not> isWordChar c) ?mid"
  have ple: "p \<le> length ?T" using p by simp
  have lx: "length ?xs = length ?T - p" by simp
  have len: "length ?xs = length ?pre + length ?run + length ?rest"
    by (rule length_split_twice)
  have adv: "p + (length ?xs - length ?rest) = p + length ?pre + length ?run"
    using len by simp
  have ne: "?T \<noteq> []" using p by auto
  show ?thesis
  proof (cases "?mid = []")
    case True
    have r: "?rest = []" by (simp only: True dropWhile.simps)
    have "length ?xs = length ?pre + length ?mid"
      by (metis length_append takeWhile_dropWhile_id)
    moreover have "length ?mid = 0" by (simp only: True list.size)
    ultimately have "p + length ?pre = length ?T" using lx p by linarith
    then show ?thesis
      using True r sp c ne ple
      by (simp add: timerEvent_def indexOf_nonword_at Let_def emit_def del: dropWhile_eq_Nil_conv)
  next
    case False
    then have "0 < length ?mid" by simp
    moreover have "length ?mid = length ?run + length ?rest"
      by (metis length_append takeWhile_dropWhile_id)
    ultimately have lt: "p + length ?pre < length ?T" using len lx p by linarith
    show ?thesis
    proof (cases "?rest = []")
      case True
      then have "length ?rest = 0" by simp
      then have "p + length ?pre + length ?run = length ?T" using len lx p by linarith
      then show ?thesis
        using True False sp c ne ple lt
        by (simp add: timerEvent_def indexOf_nonword_at Let_def emit_def del: dropWhile_eq_Nil_conv)
    next
      case False2: False
      then have "0 < length ?rest" by simp
      then have "p + length ?pre + length ?run < length ?T" using len lx p by linarith
      then show ?thesis
        using False2 False sp c ne ple lt adv
        by (simp add: timerEvent_def indexOf_nonword_at Let_def emit_def del: dropWhile_eq_Nil_conv)
    qed
  qed
qed

lemma drop_rest:
  "drop (p + (length (drop p T)
        - length (dropWhile Q (dropWhile P (drop p T))))) T
     = dropWhile Q (dropWhile P (drop p T))"
proof -
  let ?xs = "drop p T"
  let ?mid = "dropWhile P ?xs"
  let ?rest = "dropWhile Q ?mid"
  have len: "length ?xs = length (takeWhile P ?xs) + length (takeWhile Q ?mid) + length ?rest"
    by (rule length_split_twice)
  have a: "?mid = drop (length (takeWhile P ?xs)) ?xs"
    by (rule dropWhile_eq_drop)
  have b: "?rest = drop (length (takeWhile Q ?mid)) ?mid"
    by (rule dropWhile_eq_drop)
  have "drop (length (takeWhile Q ?mid)) ?mid
      = drop (length (takeWhile Q ?mid)) (drop (length (takeWhile P ?xs)) ?xs)"
    using a by (rule arg_cong)
  then have "?rest = drop (length (takeWhile Q ?mid) + length (takeWhile P ?xs) + p) T"
    using b by (simp only: drop_drop add.assoc)
  moreover have "length (takeWhile Q ?mid) + length (takeWhile P ?xs) + p
      = p + (length ?xs - length ?rest)"
    using len by linarith
  ultimately show ?thesis by simp
qed

lemma tick_continue:
  assumes sp: "m_state s = Speaking" and tm: "m_timer s" and np: "\<not> m_pauseRequested s"
    and c: "m_currentIndex s = int p" and p: "p < length (m_text s)"
    and rest: "dropWhile (\<lambda>c. \<not> isWordChar c) (dropWhile isWordChar (drop p (m_text s))) \<noteq> []"
  shows "tick s =
     Inr (s\<lparr>emitted := emitted s
                @ [sayingWord (int p) (int (length (takeWhile isWordChar (drop p (m_text s)))))],
            m_currentIndex :=
              int (p + (length (drop p (m_text s))
                 - length (dropWhile (\<lambda>c. \<not> isWordChar c)
                     (dropWhile isWordChar (drop p (m_text s)))))),
            m_pauseRequested := False\<rparr>)"
  using timerEvent_step [OF sp c p] tm np rest
  by (simp add: tick_def Let_def emit_def del: dropWhile_eq_Nil_conv)

lemma tick_finish:
  assumes sp: "m_state s = Speaking" and tm: "m_timer s"
    and c: "m_currentIndex s = int p" and p: "p < length (m_text s)"
    and rest: "dropWhile (\<lambda>c. \<not> isWordChar c) (dropWhile isWordChar (drop p (m_text s))) = []"
  shows "tick s =
     Inr (s\<lparr>emitted := emitted s
                @ [sayingWord (int p) (int (length (takeWhile isWordChar (drop p (m_text s))))),
                   stateChanged Ready],
            m_timer := False, m_state := Ready, m_currentIndex := - 1,
            m_pauseRequested := False\<rparr>)"
  using timerEvent_step [OF sp c p] tm rest
  by (simp add: tick_def Let_def emit_def del: dropWhile_eq_Nil_conv)

lemma ticks_before_end:
  assumes "m_state s = Speaking" "m_timer s" "\<not> m_pauseRequested s"
    "m_currentIndex s = int p" "p < length (m_text s)"
    "k < length (tick_spans p (drop p (m_text s)))"
  shows "ticks k s =
     Inr (s\<lparr>emitted := emitted s @ map word_signal (take k (tick_spans p (drop p (m_text s)))),
            m_currentIndex := int (fst (tick_spans p (drop p (m_text s)) ! k)),
            m_pauseRequested := False\<rparr>)"
  using assms
proof (induction k arbitrary: s p)
  case 0
  have ne: "drop p (m_text s) \<noteq> []" using "0.prems"(5) by simp
  have "s\<lparr>emitted := emitted s @ [], m_currentIndex := int p, m_pauseRequested := False\<rparr> = s"
    using "0.prems"(3,4) by (cases s) simp
  then show ?case
    by (simp add: tick_spans_step [OF ne])
next
  case (Suc k)
  let ?T = "m_text s"
  let ?xs = "drop p ?T"
  let ?rest = "dropWhile (\<lambda>c. \<not> isWordChar c) (dropWhile isWordChar ?xs)"
  let ?p' = "p + (length ?xs - length ?rest)"
  let ?s1 = "s\<lparr>emitted := emitted s @ [sayingWord (int p) (int (length (takeWhile isWordChar ?xs)))],
            m_currentIndex := int ?p', m_pauseRequested := False\<rparr>"
  have ne: "?xs \<noteq> []" using Suc.prems(5) by simp
  have unf: "tick_spans p ?xs = (p, length (takeWhile isWordChar ?xs)) # tick_spans ?p' ?rest"
    by (rule tick_spans_step [OF ne])
  have k: "k < length (tick_spans ?p' ?rest)"
    using Suc.prems(6) unf by simp
  then have rne: "?rest \<noteq> []"
    by (auto simp: tick_spans_Nil simp del: dropWhile_eq_Nil_conv)
  have dr: "drop ?p' ?T = ?rest" by (rule drop_rest)
  have p': "?p' < length ?T"
  proof (rule ccontr)
    assume "\<not> ?p' < length ?T"
    then have "drop ?p' ?T = []" by simp
    with dr rne show False by simp
  qed
  have step: "tick s = Inr ?s1"
    by (rule tick_continue [OF Suc.prems(1,2,3,4,5) rne])
  have ih: "ticks k ?s1 =
     Inr (?s1\<lparr>emitted := emitted ?s1 @ map word_signal (take k (tick_spans ?p' (drop ?p' (m_text ?s1)))),
            m_currentIndex := int (fst (tick_spans ?p' (drop ?p' (m_text ?s1)) ! k)),
            m_pauseRequested := False\<rparr>)"
    apply (rule Suc.IH)
    using Suc.prems(1,2) p' k dr by simp_all
  show ?case
    using step ih dr unf by (simp add: word_signal_def)
qed

lemma ticks_to_end:
  assumes "m_state s = Speaking" "m_timer s" "\<not> m_pauseRequested s"
    "m_currentIndex s = int p" "p < length (m_text s)"
    "length (tick_spans p (drop p (m_text s))) = n"
  shows "ticks n s =
     Inr (s\<lparr>emitted := emitted s @ map word_signal (tick_spans p (drop p (m_text s)))
                @ [stateChanged Ready],
            m_timer := False, m_state := Ready, m_currentIndex := - 1,
            m_pauseRequested := False\<rparr>)"
  using assms
proof (induction n arbitrary: s p)
  case 0
  have ne: "drop p (m_text s) \<noteq> []" using "0.prems"(5) by simp
  show ?case using "0.prems"(6) by (simp add: tick_spans_step [OF ne])
next
  case (Suc n)
  let ?T = "m_text s"
  let ?xs = "drop p ?T"
  let ?rest = "dropWhile (\<lambda>c. \<not> isWordChar c) (dropWhile isWordChar ?xs)"
  let ?p' = "p + (length ?xs - length ?rest)"
  let ?s1 = "s\<lparr>emitted := emitted s @ [sayingWord (int p) (int (length (takeWhile isWordChar ?xs)))],
            m_currentIndex := int ?p', m_pauseRequested := False\<rparr>"
  have ne: "?xs \<noteq> []" using Suc.prems(5) by simp
  have unf: "tick_spans p ?xs = (p, length (takeWhile isWordChar ?xs)) # tick_spans ?p' ?rest"
    by (rule tick_spans_step [OF ne])
  have n: "length (tick_spans ?p' ?rest) = n"
    using Suc.prems(6) unf by simp
  show ?case
  proof (cases "?rest = []")
    case True
    then have "n = 0" using n by (simp only: tick_spans_Nil list.size)
    moreover have "tick s = Inr (s\<lparr>emitted := emitted s
                @ [sayingWord (int p) (int (length (takeWhile isWordChar ?xs))),
                   stateChanged Ready],
            m_timer := False, m_state := Ready, m_currentIndex := - 1,
            m_pauseRequested := False\<rparr>)"
      by (rule tick_finish [OF Suc.prems(1,2,4,5) True])
    moreover have "tick_spans p ?xs = [(p, length (takeWhile isWordChar ?xs))]"
      using unf by (simp only: True tick_spans_Nil)
    ultimately show ?thesis
      by (simp add: word_signal_def)
  next
    case False
    have dr: "drop ?p' ?T = ?rest" by (rule drop_rest)
    have p': "?p' < length ?T"
    proof (rule ccontr)
      assume "\<not> ?p' < length ?T"
      then have "drop ?p' ?T = []" by simp
      with dr False show False by simp
    qed
    have step: "tick s = Inr ?s1"
      by (rule tick_continue [OF Suc.prems(1,2,3,4,5) False])
    have ih: "ticks n ?s1 =
       Inr (?s1\<lparr>emitted := emitted ?s1 @ map word_signal (tick_spans ?p' (drop ?p' (m_text ?s1)))
                @ [stateChanged Ready],
            m_timer := False, m_state := Ready, m_currentIndex := - 1,
            m_pauseRequested := False\<rparr>)"
      apply (rule Suc.IH)
      using Suc.prems(1,2) p' n dr by simp_all
    show ?thesis
      using step ih dr unf by (simp add: word_signal_def)
  qed
qed

section \<open>The spans met by the ticks\<close>

lemma scan_skip_separators:
  "scan_spans p None xs =
     scan_spans (p + length (takeWhile (\<lambda>c. \<not> isWordChar c) xs)) None
       (dropWhile (\<lambda>c. \<not> isWordChar c) xs)"
proof (induction xs arbitrary: p)
  case Nil
  show ?case by simp
next
  case (Cons x xs)
  show ?case
  proof (cases "isWordChar x")
    case True
    then show ?thesis by simp
  next
    case False
    then show ?thesis using Cons.IH [of "Suc p"] by simp
  qed
qed

lemma scan_finish_word:
  "b \<le> p \<Longrightarrow> scan_spans p (Some b) xs =
     (b, p + length (takeWhile isWordChar xs) - b)
       # scan_spans (p + length (takeWhile isWordChar xs)) None (dropWhile isWordChar xs)"
proof (induction xs arbitrary: p)
  case Nil
  show ?case by simp
next
  case (Cons x xs)
  show ?case
  proof (cases "isWordChar x")
    case True
    then show ?thesis using Cons.IH [of "Suc p"] Cons.prems by simp
  next
    case False
    then show ?thesis using scan_skip_separators [of p "x # xs"] by simp
  qed
qed

lemma scan_word_first:
  assumes "xs \<noteq> []" "isWordChar (hd xs)"
  shows "scan_spans p None xs =
     (p, length (takeWhile isWordChar xs))
       # scan_spans (p + (length xs - length (dropWhile (\<lambda>c. \<not> isWordChar c) (dropWhile isWordChar xs))))
           None (dropWhile (\<lambda>c. \<not> isWordChar c) (dropWhile isWordChar xs))"
proof -
  obtain x xs' where xs: "xs = x # xs'" using assms(1) by (cases xs) auto
  have w: "isWordChar x" using assms(2) xs by simp
  let ?mid = "dropWhile isWordChar xs"
  let ?rest = "dropWhile (\<lambda>c. \<not> isWordChar c) ?mid"
  have len: "length xs = length (takeWhile isWordChar xs)
      + length (takeWhile (\<lambda>c. \<not> isWordChar c) ?mid) + length ?rest"
    by (rule length_split_twice)
  have "scan_spans p None xs = scan_spans (Suc p) (Some p) xs'"
    using w xs by simp
  also have "\<dots> = (p, Suc p + length (takeWhile isWordChar xs') - p)
       # scan_spans (Suc p + length (takeWhile isWordChar xs')) None (dropWhile isWordChar xs')"
    by (rule scan_finish_word) simp
  also have "\<dots> = (p, length (takeWhile isWordChar xs))
       # scan_spans (p + length (takeWhile isWordChar xs)) None ?mid"
    using w xs by simp
  also have "scan_spans (p + length (takeWhile isWordChar xs)) None ?mid =
      scan_spans (p + length (takeWhile isWordChar xs)
          + length (takeWhile (\<lambda>c. \<not> isWordChar c) ?mid)) None ?rest"
    by (rule scan_skip_separators)
  also have "p + length (takeWhile isWordChar xs)
          + length (takeWhile (\<lambda>c. \<not> isWordChar c) ?mid) = p + (length xs - length ?rest)"
    using len by linarith
  finally show ?thesis .
qed

lemma rest_starts_with_word:
  "dropWhile (\<lambda>c. \<not> isWordChar c) ys \<noteq> [] \<Longrightarrow> isWordChar (hd (dropWhile (\<lambda>c. \<not> isWordChar c) ys))"
  using hd_dropWhile [of "\<lambda>c. \<not> isWordChar c" ys] by simp

lemma tick_spans_scan:
  "xs = [] \<or> isWordChar (hd xs) \<Longrightarrow> tick_spans p xs = scan_spans p None xs"
proof (induction "length xs" arbitrary: xs p rule: less_induct)
  case less
  show ?case
  proof (cases "xs = []")
    case True
    then show ?thesis by (simp add: tick_spans_Nil)
  next
    case False
    let ?rest = "dropWhile (\<lambda>c. \<not> isWordChar c) (dropWhile isWordChar xs)"
    have w: "isWordChar (hd xs)" using less.prems False by simp
    have "?rest = [] \<or> isWordChar (hd ?rest)"
      using rest_starts_with_word [of "dropWhile isWordChar xs"] by blast
    then have "tick_spans (p + (length xs - length ?rest)) ?rest
        = scan_spans (p + (length xs - length ?rest)) None ?rest"
      using less.hyps [OF rest_shorter [OF False]] by blast
    then show ?thesis
      using tick_spans_step [OF False, of p] scan_word_first [OF False w, of p] by simp
  qed
qed

lemma tick_spans_separator_first:
  assumes "xs \<noteq> []" "\<not> isWordChar (hd xs)"
  shows "tick_spans p xs = (p, 0) # scan_spans p None xs"
proof -
  obtain x xs' where xs: "xs = x # xs'" using assms(1) by (cases xs) auto
  have w: "\<not> isWordChar x" using assms(2) xs by simp
  let ?rest = "dropWhile (\<lambda>c. \<not> isWordChar c) xs"
  have mid: "dropWhile isWordChar xs = xs" "takeWhile isWordChar xs = []"
    using w xs by simp_all
  have len: "length xs = length (takeWhile (\<lambda>c. \<not> isWordChar c) xs) + length ?rest"
    by (metis length_append takeWhile_dropWhile_id)
  have st: "?rest = [] \<or> isWordChar (hd ?rest)"
    using rest_starts_with_word [of xs] by blast
  have "tick_spans p xs = (p, 0) # tick_spans (p + (length xs - length ?rest)) ?rest"
    using tick_spans_step [OF assms(1), of p] by (simp only: mid list.size)
  also have "tick_spans (p + (length xs - length ?rest)) ?rest
      = scan_spans (p + (length xs - length ?rest)) None ?rest"
    by (rule tick_spans_scan [OF st])
  also have "p + (length xs - length ?rest) = p + length (takeWhile (\<lambda>c. \<not> isWordChar c) xs)"
    using len by linarith
  also have "scan_spans (p + length (takeWhile (\<lambda>c. \<not> isWordChar c) xs)) None ?rest
      = scan_spans p None xs"
    by (rule scan_skip_separators [symmetric])
  finally show ?thesis .
qed

lemma tick_spans_reported: "tick_spans 0 T = reported_spans T"
proof (cases "T \<noteq> [] \<and> \<not> isWordChar (hd T)")
  case True
  then show ?thesis
    using tick_spans_separator_first [of T 0] by (simp add: reported_spans_def word_spans_def)
next
  case False
  then have "T = [] \<or> isWordChar (hd T)" by blast
  then show ?thesis
    using tick_spans_scan [of T 0] False by (auto simp: reported_spans_def word_spans_def)
qed

lemma length_tick_spans: "length (tick_spans p xs) \<le> length xs"
proof (induction "length xs" arbitrary: xs p rule: less_induct)
  case less
  show ?case
  proof (cases "xs = []")
    case True
    then show ?thesis by (simp add: tick_spans_Nil)
  next
    case False
    let ?rest = "dropWhile (\<lambda>c. \<not> isWordChar c) (dropWhile isWordChar xs)"
    have "length (tick_spans (p + (length xs - length ?rest)) ?rest) \<le> length ?rest"
      by (rule less.hyps [OF rest_shorter [OF False]])
    then show ?thesis
      using tick_spans_step [OF False, of p] rest_shorter [OF False] by simp
  qed
qed

lemma tick_spans_nonempty: "xs \<noteq> [] \<Longrightarrow> 0 < length (tick_spans p xs)"
  by (simp add: tick_spans_step)

section \<open>Facts about the concrete engines\<close>

lemma mock_ready_fields:
  "m_state mock_ready = Ready" "\<not> m_pauseRequested mock_ready" "\<not> m_timer mock_ready"
  "emitted mock_ready = []" "m_currentIndex mock_ready = - 1" "m_text mock_ready = []"
  by (simp_all add: mock_ready_def mock_members_def)

lemma speaking_a_b_fields:
  "m_state speaking_a_b = Speaking" "\<not> m_pauseRequested speaking_a_b" "m_timer speaking_a_b"
  "emitted speaking_a_b = [stateChanged Speaking]" "m_currentIndex speaking_a_b = 0"
  "m_text speaking_a_b = ''a b''"
  by (simp_all add: speaking_a_b_def say_def emit_def mock_ready_fields)


section \<open>The timer and the state\<close>

lemma ticks_idle: "\<not> m_timer s \<Longrightarrow> ticks n s = Inr s"
  by (induction n) (simp_all add: tick_def)

lemma availableVoices_supported:
  "l \<in> set availableLocales \<Longrightarrow> \<exists>vs. availableVoices (s\<lparr>m_locale := l\<rparr>) = Inr vs"
  by (auto simp: availableLocales_def availableVoices_def)

lemma exec_preserves_timer_inv:
  assumes "timer_inv s" "exec c s = Inr s'"
  shows "timer_inv s'"
proof (cases c)
  case (Say t)
  then show ?thesis using assms by (auto simp: timer_inv_def say_def emit_def)
next
  case (Stop h)
  then show ?thesis using assms by (auto simp: timer_inv_def stop_def emit_def split: if_splits)
next
  case (Pause h)
  then show ?thesis using assms by (auto simp: timer_inv_def pause_def split: if_splits)
next
  case Resume
  then show ?thesis using assms by (auto simp: timer_inv_def resume_def emit_def split: if_splits)
next
  case (SetRate r)
  then show ?thesis using assms by (auto simp: timer_inv_def setRate_def Let_def split: if_splits)
next
  case (SetPitch r)
  then show ?thesis using assms by (auto simp: timer_inv_def setPitch_def)
next
  case (SetVolume r)
  then show ?thesis using assms by (auto simp: timer_inv_def setVolume_def split: if_splits)
next
  case (SetLocale l)
  then show ?thesis using assms
    by (auto simp: timer_inv_def setLocale_def Let_def split: if_splits sum.splits list.splits)
next
  case (SetVoice v)
  then show ?thesis using assms
    by (auto simp: timer_inv_def setVoice_def Let_def split: if_splits sum.splits)
next
  case Tick
  then have "tick s = Inr s'" using assms by simp
  then show ?thesis
    using assms(1)
    by (auto simp: tick_def timer_inv_def timerEvent_def Let_def emit_def split: if_splits prod.splits)
qed

lemma run_preserves_timer_inv:
  "timer_inv s \<Longrightarrow> run cs s = Inr s' \<Longrightarrow> timer_inv s'"
proof (induction cs arbitrary: s)
  case Nil
  then show ?case by simp
next
  case (Cons c cs)
  then show ?case
    by (auto split: sum.splits dest: exec_preserves_timer_inv)
qed

lemma new_timer_inv:
  "QTextToSpeechEngineMock_new members = Inr s0 \<Longrightarrow> timer_inv s0"
  by (auto simp: QTextToSpeechEngineMock_new_def first_def availableLocales_def availableVoices_def timer_inv_def Let_def)

lemma new_succeeds: "\<exists>s0. QTextToSpeechEngineMock_new members = Inr s0"
  by (simp add: QTextToSpeechEngineMock_new_def first_def availableLocales_def availableVoices_def Let_def)

lemma exec_succeeds:
  assumes "timer_inv s" "c \<noteq> Tick"
  shows "\<exists>s'. exec c s = Inr s'"
proof (cases c)
  case (Stop h)
  then show ?thesis using assms by (cases "m_state s") (auto simp: timer_inv_def stop_def)
next
  case (SetLocale l)
  show ?thesis
  proof (cases "l \<in> set availableLocales")
    case True
    then obtain vs where "availableVoices (s\<lparr>m_locale := l\<rparr>) = Inr vs"
      using availableVoices_supported by blast
    then show ?thesis using SetLocale True
      by (auto simp: setLocale_def Let_def split: list.splits)
  next
    case False
    then show ?thesis using SetLocale by (simp add: setLocale_def)
  qed
next
  case (SetVoice v)
  let ?l = "QLocale_fromName (left (voiceData v) (lastIndexOf (voiceData v) CHR ''-''))"
  show ?thesis
  proof (cases "?l \<in> set availableLocales")
    case True
    then obtain vs where "availableVoices (s\<lparr>m_locale := ?l\<rparr>) = Inr vs"
      using availableVoices_supported by blast
    then show ?thesis using SetVoice True
      by (auto simp: setVoice_def Let_def)
  next
    case False
    then show ?thesis using SetVoice by (simp add: setVoice_def Let_def)
  qed
qed (use assms in auto)

text \<open>
  Claim C10. In the mock engine the word timer is active exactly while the state is
  \<open>Speaking\<close>. The constructor returns an engine for which this holds; every call that
  returns (say, stop, pause, resume, the setters, a tick) preserves it, and every call other
  than a tick does return when it holds; hence it holds after every sequence of calls on a
  new engine, and a tick in a state other than \<open>Speaking\<close> delivers nothing and leaves the
  engine as it is.
\<close>

theorem timer_active_iff_Speaking:
  "(\<exists>s0. QTextToSpeechEngineMock_new members = Inr s0 \<and> timer_inv s0)
   \<and> (timer_inv s \<and> exec c s = Inr s' \<longrightarrow> timer_inv s')
   \<and> (timer_inv s \<and> c \<noteq> Tick \<longrightarrow> (\<exists>u. exec c s = Inr u))
   \<and> (QTextToSpeechEngineMock_new members = Inr a \<and> run cs a = Inr b \<longrightarrow> timer_inv b)
   \<and> (timer_inv s \<and> m_state s \<noteq> Speaking \<longrightarrow> tick s = Inr s)"
proof (intro conjI impI)
  show "\<exists>s0. QTextToSpeechEngineMock_new members = Inr s0 \<and> timer_inv s0"
    using new_succeeds [of members] new_timer_inv by blast
  show "timer_inv s'" if "timer_inv s \<and> exec c s = Inr s'"
    using that exec_preserves_timer_inv by blast
  show "\<exists>u. exec c s = Inr u" if "timer_inv s \<and> c \<noteq> Tick"
    using that exec_succeeds by blast
  show "timer_inv b" if "QTextToSpeechEngineMock_new members = Inr a \<and> run cs a = Inr b"
    using that new_timer_inv run_preserves_timer_inv by blast
  show "tick s = Inr s" if "timer_inv s \<and> m_state s \<noteq> Speaking"
    using that by (simp add: timer_inv_def tick_def)
qed

lemma new_mock_members: "QTextToSpeechEngineMock_new mock_members = Inr mock_ready"
  by (simp add: QTextToSpeechEngineMock_new_def first_def availableLocales_def
      availableVoices_def mock_ready_def mock_members_def)

lemma run_to_paused_a_b:
  "run [Say ''a b'', Pause Default, Tick] mock_ready = Inr (paused_a_b\<lparr>m_pauseRequested := False\<rparr>)"
  by (simp add: tick_def timerEvent_def indexOf_nonword_def isWordChar_def emit_def pause_def
      say_def paused_a_b_def speaking_a_b_def mock_ready_fields)

theorem timer_active_iff_Speaking_witness:
  "QTextToSpeechEngineMock_new mock_members = Inr mock_ready \<and> timer_inv mock_ready
   \<and> exec (Say ''a b'') mock_ready = Inr speaking_a_b \<and> timer_inv speaking_a_b
   \<and> Stop Default \<noteq> Tick \<and> (\<exists>u. exec (Stop Default) speaking_a_b = Inr u)
   \<and> run [Say ''a b'', Pause Default, Tick] mock_ready = Inr (paused_a_b\<lparr>m_pauseRequested := False\<rparr>)
   \<and> timer_inv (paused_a_b\<lparr>m_pauseRequested := False\<rparr>)
   \<and> m_state mock_ready \<noteq> Speaking \<and> tick mock_ready = Inr mock_ready"
proof -
  have n: "QTextToSpeechEngineMock_new mock_members = Inr mock_ready"
    by (rule new_mock_members)
  have i0: "timer_inv mock_ready"
    using n timer_active_iff_Speaking [where members = mock_members] by auto
  have e: "exec (Say ''a b'') mock_ready = Inr speaking_a_b"
    by (simp add: speaking_a_b_def)
  have i1: "timer_inv speaking_a_b"
    using i0 e timer_active_iff_Speaking [where s = mock_ready and c = "Say ''a b''" and s' = speaking_a_b]
    by blast
  have st: "\<exists>u. exec (Stop Default) speaking_a_b = Inr u"
    using i1 timer_active_iff_Speaking [where s = speaking_a_b and c = "Stop Default"] by blast
  have r: "run [Say ''a b'', Pause Default, Tick] mock_ready = Inr (paused_a_b\<lparr>m_pauseRequested := False\<rparr>)"
    by (rule run_to_paused_a_b)
  have i2: "timer_inv (paused_a_b\<lparr>m_pauseRequested := False\<rparr>)"
    using n r timer_active_iff_Speaking [where members = mock_members and a = mock_ready
        and cs = "[Say ''a b'', Pause Default, Tick]" and b = "paused_a_b\<lparr>m_pauseRequested := False\<rparr>"]
    by blast
  have ns: "m_state mock_ready \<noteq> Speaking"
    by (simp add: mock_ready_fields)
  have t: "tick mock_ready = Inr mock_ready"
    using i0 ns timer_active_iff_Speaking [where s = mock_ready] by blast
  show ?thesis
    using n i0 e i1 st r i2 ns t by simp
qed

section \<open>An utterance from start to end\<close>

lemma tick_pause:
  assumes sp: "m_state s = Speaking" and tm: "m_timer s" and pr: "m_pauseRequested s"
    and c: "m_currentIndex s = int p" and p: "p < length (m_text s)"
    and rest: "dropWhile (\<lambda>c. \<not> isWordChar c) (dropWhile isWordChar (drop p (m_text s))) \<noteq> []"
  shows "tick s =
     Inr (s\<lparr>emitted := emitted s
                @ [sayingWord (int p) (int (length (takeWhile isWordChar (drop p (m_text s))))),
                   stateChanged Paused],
            m_currentIndex :=
              int (p + (length (drop p (m_text s))
                 - length (dropWhile (\<lambda>c. \<not> isWordChar c)
                     (dropWhile isWordChar (drop p (m_text s)))))),
            m_timer := False, m_state := Paused, m_pauseRequested := False\<rparr>)"
  using timerEvent_step [OF sp c p] tm pr rest
  by (simp add: tick_def Let_def emit_def del: dropWhile_eq_Nil_conv)

lemma tick_advances:
  assumes "m_state u = Speaking" "m_timer u" "cursor_in_text u"
  shows "\<exists>u'. tick u = Inr u' \<and>
           (m_state u' = Ready
            \<or> m_currentIndex u < m_currentIndex u' \<and> m_currentIndex u' < int (length (m_text u'))
               \<and> m_text u' = m_text u)"
proof -
  obtain p where c: "m_currentIndex u = int p" and p: "p < length (m_text u)"
    using assms(3) by (auto simp: cursor_in_text_def intro: that [of "nat (m_currentIndex u)"])
  let ?xs = "drop p (m_text u)"
  let ?rest = "dropWhile (\<lambda>c. \<not> isWordChar c) (dropWhile isWordChar ?xs)"
  let ?p' = "p + (length ?xs - length ?rest)"
  have ne: "?xs \<noteq> []" using p by simp
  have sh: "length ?rest < length ?xs" by (rule rest_shorter [OF ne])
  then have adv: "p < ?p'" by linarith
  have dr: "drop ?p' (m_text u) = ?rest" by (rule drop_rest)
  show ?thesis
  proof (cases "?rest = []")
    case True
    show ?thesis
      by (simp add: tick_finish [OF assms(1,2) c p True])
  next
    case False
    have p': "?p' < length (m_text u)"
    proof (rule ccontr)
      assume "\<not> ?p' < length (m_text u)"
      then have "drop ?p' (m_text u) = []" by simp
      with dr False show False by simp
    qed
    have lt: "int p < int ?p'" "int ?p' < int (length (m_text u))"
      using adv p' by (simp_all only: of_nat_less_iff)
    show ?thesis
    proof (cases "m_pauseRequested u")
      case True
      show ?thesis
        unfolding tick_pause [OF assms(1,2) True c p False] c
        using lt by simp
    next
      case np: False
      show ?thesis
        unfolding tick_continue [OF assms(1,2) np c p False] c
        using lt by simp
    qed
  qed
qed

text \<open>
  Claim C3, amended. For every text \<open>T\<close> that is not empty, \<open>say T\<close> in state \<open>Ready\<close>
  with no pause request pending enters \<open>Speaking\<close>. The engine then stays in \<open>Speaking\<close>
  for fewer ticks than \<open>reported_spans T\<close> has entries, the cursor standing at the start
  of the next entry, and after exactly that many ticks, which are at least one and at most
  \<open>length T\<close>, it is \<open>Ready\<close> again, having emitted one \<open>sayingWord\<close> for each entry
  of \<open>reported_spans T\<close>, in order: one for each word-like span of \<open>T\<close>, preceded by one
  for the empty span at position 0 when \<open>T\<close> starts with a separator. A tick of a speaking
  engine whose cursor is inside its text ends the utterance or moves the cursor strictly
  forward, still inside the text.
\<close>

theorem say_reports_spans_until_Ready:
  assumes "T \<noteq> []" and "m_state s = Ready" and "\<not> m_pauseRequested s"
  shows "m_state (say T s) = Speaking
    \<and> (\<forall>k<length (reported_spans T). \<exists>sk. ticks k (say T s) = Inr sk \<and> m_state sk = Speaking
          \<and> m_currentIndex sk = int (fst (reported_spans T ! k)))
    \<and> (\<exists>s'. ticks (length (reported_spans T)) (say T s) = Inr s' \<and> m_state s' = Ready
          \<and> emitted s' = emitted s @ stateChanged Speaking # map word_signal (reported_spans T)
                @ [stateChanged Ready])
    \<and> 0 < length (reported_spans T) \<and> length (reported_spans T) \<le> length T
    \<and> (\<forall>u. m_state u = Speaking \<and> m_timer u \<and> cursor_in_text u \<longrightarrow>
          (\<exists>u'. tick u = Inr u' \<and>
             (m_state u' = Ready
              \<or> m_currentIndex u < m_currentIndex u' \<and> m_currentIndex u' < int (length (m_text u'))
                 \<and> m_text u' = m_text u)))"
proof -
  let ?s = "say T s"
  have st: "m_state ?s = Speaking" "m_timer ?s" "\<not> m_pauseRequested ?s"
    "m_currentIndex ?s = int 0" "0 < length (m_text ?s)" "m_text ?s = T"
    "emitted ?s = emitted s @ [stateChanged Speaking]"
    using assms by (simp_all add: say_def emit_def)
  have sp: "tick_spans 0 (drop 0 (m_text ?s)) = reported_spans T"
    using st(6) by (simp add: tick_spans_reported)
  have mid: "\<exists>sk. ticks k ?s = Inr sk \<and> m_state sk = Speaking
          \<and> m_currentIndex sk = int (fst (reported_spans T ! k))"
    if "k < length (reported_spans T)" for k
  proof -
    have "k < length (tick_spans 0 (drop 0 (m_text ?s)))" using that sp by simp
    from ticks_before_end [OF st(1,2,3,4,5) this] show ?thesis
      using st(1) by (simp only: sp) simp
  qed
  have fin: "\<exists>s'. ticks (length (reported_spans T)) ?s = Inr s' \<and> m_state s' = Ready
          \<and> emitted s' = emitted s @ stateChanged Speaking # map word_signal (reported_spans T)
                @ [stateChanged Ready]"
  proof -
    have "length (tick_spans 0 (drop 0 (m_text ?s))) = length (reported_spans T)"
      using sp by simp
    from ticks_to_end [OF st(1,2,3,4,5) this] show ?thesis
      using st(7) by (simp only: sp) simp
  qed
  have pos: "0 < length (reported_spans T)"
    using tick_spans_nonempty [OF assms(1), of 0] by (simp add: tick_spans_reported)
  have le: "length (reported_spans T) \<le> length T"
    using length_tick_spans [of 0 T] by (simp add: tick_spans_reported)
  show ?thesis
    using st(1) mid fin pos le tick_advances by blast
qed

lemma reported_spans_a_b: "reported_spans ''a b'' = [(0, 1), (2, 1)]"
  by (simp add: reported_spans_def word_spans_def isWordChar_def)

theorem say_reports_spans_until_Ready_witness:
  "''a b'' \<noteq> [] \<and> m_state mock_ready = Ready \<and> \<not> m_pauseRequested mock_ready
   \<and> (\<exists>s'. ticks 2 (say ''a b'' mock_ready) = Inr s' \<and> m_state s' = Ready
         \<and> emitted s' = [stateChanged Speaking, sayingWord 0 1, sayingWord 2 1, stateChanged Ready])"
proof -
  have h: "''a b'' \<noteq> []" "m_state mock_ready = Ready" "\<not> m_pauseRequested mock_ready"
    by (simp_all add: mock_ready_def mock_members_def)
  have e: "emitted mock_ready = []"
    by (simp add: mock_ready_def mock_members_def)
  show ?thesis
    using h say_reports_spans_until_Ready [OF h]
    by (simp add: reported_spans_a_b word_signal_def e numeral_2_eq_2)
qed

text \<open>
  The text \<open>'' hi''\<close> has the single word-like span \<open>(1, 2)\<close>, yet the engine emits two
  word signals for it, the first for the empty span in front of the leading blank.
\<close>

theorem leading_separator_counterexample:
  "map_sum id emitted (ticks 2 (say '' hi'' mock_ready))
     = Inr [stateChanged Speaking, sayingWord 0 0, sayingWord 1 2, stateChanged Ready]
   \<and> word_spans '' hi'' = [(1, 2)]"
  by (simp add: numeral_2_eq_2 tick_def say_def emit_def timerEvent_def indexOf_nonword_def
      isWordChar_def mock_ready_def mock_members_def word_spans_def)

section \<open>Pausing\<close>

lemma not_paused_unless_tick:
  assumes "c \<noteq> Tick" "m_state s \<noteq> Paused" "exec c s = Inr s'"
  shows "m_state s' \<noteq> Paused"
proof (cases c)
  case (Say t)
  then show ?thesis using assms by (auto simp: say_def emit_def)
next
  case (Stop h)
  then show ?thesis using assms by (auto simp: stop_def emit_def split: if_splits)
next
  case (Pause h)
  then show ?thesis using assms by (auto simp: pause_def split: if_splits)
next
  case Resume
  then show ?thesis using assms by (auto simp: resume_def emit_def split: if_splits)
next
  case (SetRate r)
  then show ?thesis using assms by (auto simp: setRate_def Let_def split: if_splits)
next
  case (SetPitch r)
  then show ?thesis using assms by (auto simp: setPitch_def)
next
  case (SetVolume r)
  then show ?thesis using assms by (auto simp: setVolume_def split: if_splits)
next
  case (SetLocale l)
  then show ?thesis using assms
    by (auto simp: setLocale_def Let_def split: if_splits sum.splits list.splits)
next
  case (SetVoice v)
  then show ?thesis using assms
    by (auto simp: setVoice_def Let_def split: if_splits sum.splits)
next
  case Tick
  then show ?thesis using assms by simp
qed

lemma tick_to_Paused:
  assumes "m_state s \<noteq> Paused" "tick s = Inr s'" "m_state s' = Paused"
  shows "m_pauseRequested s
    \<and> (\<exists>n. emitted s' = emitted s @ [sayingWord (m_currentIndex s) n, stateChanged Paused])"
  using assms
  by (auto simp: tick_def timerEvent_def Let_def emit_def split: if_splits prod.splits)

lemma tick_after_pause:
  assumes "m_state s = Speaking" "m_timer s" "cursor_in_text s"
  shows "\<exists>u n. tick (pause h s) = Inr u \<and> (m_state u = Paused \<or> m_state u = Ready)
     \<and> emitted u = emitted s @ [sayingWord (m_currentIndex s) n, stateChanged (m_state u)]"
proof -
  obtain p where c: "m_currentIndex s = int p" and p: "p < length (m_text s)"
    using assms(3) by (auto simp: cursor_in_text_def intro: that [of "nat (m_currentIndex s)"])
  let ?s = "pause h s"
  have ps: "?s = s\<lparr>m_pauseRequested := True\<rparr>" using assms(1) by (simp add: pause_def)
  have f: "m_state ?s = Speaking" "m_timer ?s" "m_pauseRequested ?s"
    "m_currentIndex ?s = int p" "p < length (m_text ?s)"
    using assms(1,2) c p by (simp_all add: ps)
  show ?thesis
  proof (cases "dropWhile (\<lambda>c. \<not> isWordChar c) (dropWhile isWordChar (drop p (m_text ?s))) = []")
    case True
    show ?thesis
      unfolding tick_finish [OF f(1,2,4,5) True] by (simp add: ps c)
  next
    case False
    show ?thesis
      unfolding tick_pause [OF f(1,2,3,4,5) False] by (simp add: ps c)
  qed
qed

text \<open>
  Claim C1. \<open>pause\<close> in state \<open>Speaking\<close> sets the pause request and nothing else, so
  the state, the error record and the signals emitted are as before; in any other state
  \<open>pause\<close> changes nothing. No call but a tick takes the engine into \<open>Paused\<close>, and a
  tick that does so had a pause request pending and has emitted the \<open>sayingWord\<close> for
  the word at the cursor before \<open>stateChanged Paused\<close>. After \<open>pause\<close> on a speaking
  engine whose cursor is inside its text, the next tick emits that \<open>sayingWord\<close> and then
  reports \<open>Paused\<close>, or \<open>Ready\<close> when the word was the last one.
\<close>

theorem pause_defers_to_word_boundary:
  "(m_state s = Speaking \<longrightarrow> pause h s = s\<lparr>m_pauseRequested := True\<rparr>)
   \<and> (m_state s \<noteq> Speaking \<longrightarrow> pause h s = s)
   \<and> (c \<noteq> Tick \<and> m_state s \<noteq> Paused \<and> exec c s = Inr s' \<longrightarrow> m_state s' \<noteq> Paused)
   \<and> (m_state s \<noteq> Paused \<and> tick s = Inr s' \<and> m_state s' = Paused \<longrightarrow>
        m_pauseRequested s
        \<and> (\<exists>n. emitted s' = emitted s @ [sayingWord (m_currentIndex s) n, stateChanged Paused]))
   \<and> (m_state s = Speaking \<and> m_timer s \<and> cursor_in_text s \<longrightarrow>
        (\<exists>u n. tick (pause h s) = Inr u \<and> (m_state u = Paused \<or> m_state u = Ready)
           \<and> emitted u = emitted s @ [sayingWord (m_currentIndex s) n, stateChanged (m_state u)]))"
proof (intro conjI impI)
  show "pause h s = s\<lparr>m_pauseRequested := True\<rparr>" if "m_state s = Speaking"
    using that by (simp add: pause_def)
  show "pause h s = s" if "m_state s \<noteq> Speaking"
    using that by (simp add: pause_def)
  show "m_state s' \<noteq> Paused" if "c \<noteq> Tick \<and> m_state s \<noteq> Paused \<and> exec c s = Inr s'"
    using that not_paused_unless_tick by blast
  show "m_pauseRequested s" if "m_state s \<noteq> Paused \<and> tick s = Inr s' \<and> m_state s' = Paused"
    using that tick_to_Paused by blast
  show "\<exists>n. emitted s' = emitted s @ [sayingWord (m_currentIndex s) n, stateChanged Paused]"
    if "m_state s \<noteq> Paused \<and> tick s = Inr s' \<and> m_state s' = Paused"
    using that tick_to_Paused by blast
  show "\<exists>u n. tick (pause h s) = Inr u \<and> (m_state u = Paused \<or> m_state u = Ready)
           \<and> emitted u = emitted s @ [sayingWord (m_currentIndex s) n, stateChanged (m_state u)]"
    if "m_state s = Speaking \<and> m_timer s \<and> cursor_in_text s"
    using that tick_after_pause by blast
qed

lemma tick_paused_a_b:
  "tick (speaking_a_b\<lparr>m_pauseRequested := True\<rparr>) =
     Inr (speaking_a_b\<lparr>emitted := [stateChanged Speaking, sayingWord 0 1, stateChanged Paused],
            m_currentIndex := 2, m_timer := False, m_state := Paused,
            m_pauseRequested := False\<rparr>)"
  by (simp add: tick_def timerEvent_def indexOf_nonword_def isWordChar_def emit_def
      speaking_a_b_fields)

theorem pause_defers_to_word_boundary_witness:
  "m_state speaking_a_b = Speaking \<and> m_timer speaking_a_b \<and> cursor_in_text speaking_a_b
   \<and> pause Default speaking_a_b = speaking_a_b\<lparr>m_pauseRequested := True\<rparr>
   \<and> m_state (pause Default speaking_a_b) = Speaking
   \<and> (\<exists>u. tick (pause Default speaking_a_b) = Inr u \<and> m_state u = Paused
        \<and> m_pauseRequested (pause Default speaking_a_b)
        \<and> emitted u = [stateChanged Speaking, sayingWord 0 1, stateChanged Paused])
   \<and> m_state mock_ready \<noteq> Speaking \<and> pause Default mock_ready = mock_ready
   \<and> Resume \<noteq> Tick \<and> m_state mock_ready \<noteq> Paused \<and> exec Resume mock_ready = Inr mock_ready"
proof -
  have a: "m_state speaking_a_b = Speaking \<and> m_timer speaking_a_b \<and> cursor_in_text speaking_a_b"
    by (simp add: speaking_a_b_fields cursor_in_text_def)
  have b: "m_state mock_ready \<noteq> Speaking" "m_state mock_ready \<noteq> Paused"
    by (simp_all add: mock_ready_fields)
  have r: "exec Resume mock_ready = Inr mock_ready"
    by (simp add: resume_def mock_ready_fields)
  have p: "pause Default speaking_a_b = speaking_a_b\<lparr>m_pauseRequested := True\<rparr>"
    using a pause_defers_to_word_boundary [of speaking_a_b Default] by blast
  have q: "pause Default mock_ready = mock_ready"
    using b pause_defers_to_word_boundary [of mock_ready Default] by blast
  have n: "m_state mock_ready \<noteq> Paused"
    using b r pause_defers_to_word_boundary [of mock_ready Default Resume mock_ready] by blast
  show ?thesis
    using a b r p q n by (simp add: tick_paused_a_b speaking_a_b_fields)
qed

section \<open>The other calls\<close>

subsection \<open>stop\<close>

text \<open>
  What \<open>stop\<close> does: in state \<open>Speaking\<close> or \<open>Paused\<close> it yields \<open>Ready\<close> at once,
  clears the text, sets the cursor to \<open>-1\<close>, stops the timer and emits
  \<open>stateChanged Ready\<close>; in state \<open>Ready\<close> or \<open>Error\<close> it returns at once. It is
  idempotent, and after it the timer is inactive, so that no number of ticks emits a word
  signal.
\<close>

lemma stop_effect:
  "((m_state s = Speaking \<or> m_state s = Paused) \<and> timer_inv s \<longrightarrow>
       stop h s = Inr (s\<lparr>emitted := emitted s @ [stateChanged Ready], m_state := Ready,
                         m_text := [], m_timer := False, m_currentIndex := - 1\<rparr>))
   \<and> (m_state s = Ready \<or> m_state s = Error \<longrightarrow> stop h s = Inr s)
   \<and> (stop h s = Inr s' \<longrightarrow> stop h' s' = Inr s')
   \<and> (timer_inv s \<and> stop h s = Inr s' \<longrightarrow> \<not> m_timer s' \<and> (\<forall>n. ticks n s' = Inr s'))"
proof (intro conjI impI)
  show "stop h s = Inr (s\<lparr>emitted := emitted s @ [stateChanged Ready], m_state := Ready,
                         m_text := [], m_timer := False, m_currentIndex := - 1\<rparr>)"
    if "(m_state s = Speaking \<or> m_state s = Paused) \<and> timer_inv s"
    using that by (auto simp: stop_def timer_inv_def emit_def)
  show "stop h s = Inr s" if "m_state s = Ready \<or> m_state s = Error"
    using that by (auto simp: stop_def)
  show "stop h' s' = Inr s'" if "stop h s = Inr s'"
    using that by (auto simp: stop_def emit_def split: if_splits)
  have off: "\<not> m_timer s'" if "timer_inv s \<and> stop h s = Inr s'"
    using that by (auto simp: stop_def timer_inv_def emit_def split: if_splits)
  then show "\<not> m_timer s'" if "timer_inv s \<and> stop h s = Inr s'"
    using that by blast
  show "\<forall>n. ticks n s' = Inr s'" if "timer_inv s \<and> stop h s = Inr s'"
    using off [OF that] ticks_idle by blast
qed

text \<open>
  Claim C2. The claim says that \<open>stop\<close> clears every pending flag of the session. The
  members that \<open>stop\<close> resets do not include \<open>m_pauseRequested\<close>: a pause requested
  while the engine speaks is still pending after \<open>stop\<close>, in state \<open>Ready\<close>, and it
  pauses the next utterance behind its first word.
\<close>

theorem stop_keeps_pause_request:
  "run [Say ''a b'', Pause Default, Stop Default] mock_ready =
     Inr (mock_ready\<lparr>emitted := [stateChanged Speaking, stateChanged Ready],
            m_pauseRequested := True\<rparr>)
   \<and> run [Say ''a b'', Pause Default, Stop Default, Say ''a b'', Tick] mock_ready =
     Inr (paused_a_b\<lparr>emitted := [stateChanged Speaking, stateChanged Ready, stateChanged Speaking,
                                   sayingWord 0 1, stateChanged Paused],
            m_pauseRequested := False\<rparr>)"
  by (simp add: tick_def timerEvent_def indexOf_nonword_def isWordChar_def emit_def pause_def
      stop_def say_def paused_a_b_def speaking_a_b_def mock_ready_def mock_members_def)

text \<open>The \<open>stop\<close> of the SAPI engine withdraws a pending pause request.\<close>

lemma stop_sapi_clears_pause_request: "\<not> m_pauseRequested (stop_sapi h s)"
  by (simp add: stop_sapi_def resume_sapi_def call_voice_def)

subsection \<open>setVoice\<close>

text \<open>
  \<open>setVoice\<close> succeeds exactly when the locale derived from the voice is supported and
  the voice is one of the voices of that locale. A call that fails leaves the voice, the
  state and the signals alone, and leaves everything alone when the derived locale is not
  supported.
\<close>

lemma setVoice_success_iff:
  "(\<exists>s'. setVoice v s = Inr (True, s')) \<longleftrightarrow>
     QLocale_fromName (left (voiceData v) (lastIndexOf (voiceData v) CHR ''-'')) \<in> set availableLocales
     \<and> (\<exists>vs. availableVoices
           (s\<lparr>m_locale := QLocale_fromName (left (voiceData v) (lastIndexOf (voiceData v) CHR ''-''))\<rparr>)
           = Inr vs \<and> v \<in> set vs)"
  by (auto simp: setVoice_def Let_def split: sum.splits)

lemma setVoice_failure_keeps_voice:
  "setVoice v s = Inr (False, s') \<Longrightarrow>
     m_voice s' = m_voice s \<and> m_state s' = m_state s \<and> emitted s' = emitted s"
  by (auto simp: setVoice_def Let_def split: sum.splits if_splits)

lemma setVoice_unknown_locale_keeps_all:
  "QLocale_fromName (left (voiceData v) (lastIndexOf (voiceData v) CHR ''-'')) \<notin> set availableLocales
     \<Longrightarrow> setVoice v s = Inr (False, s)"
  by (simp add: setVoice_def Let_def)

text \<open>
  Claim C4. The claim says that a failing \<open>setVoice\<close> commits nothing. The engine
  assigns \<open>m_locale\<close> before it looks the voice up: for a voice whose data \<open>fi-3\<close> names
  the supported Finnish locale but which is none of that locale's voices, \<open>setVoice\<close>
  on an engine set to British English returns \<open>False\<close> and leaves the engine set to
  Finnish, with the English voice still selected.
\<close>

theorem setVoice_failure_changes_locale:
  "setVoice (createVoice ''Kari'' (QLocale Finnish Finland) Male Adult ''fi-3'') mock_ready
     = Inr (False, mock_ready\<lparr>m_locale := QLocale Finnish Finland\<rparr>)
   \<and> m_locale mock_ready = QLocale English UnitedKingdom"
  by (simp add: setVoice_def voiceData_def createVoice_def lastIndexOf_def left_def
      QLocale_fromName_def availableLocales_def availableVoices_def mock_ready_def mock_members_def)

subsection \<open>setError of the SAPI engine\<close>

text \<open>
  Claim C5. The claim says that a failure recorded with a reason other than \<open>NoError\<close>
  takes the engine to \<open>Error\<close> and emits \<open>errorOccurred\<close>. \<open>setError\<close> returns right
  after storing such a reason and its message: the state and the signals emitted are
  unchanged.
\<close>

theorem setError_records_without_surfacing:
  "reason \<noteq> NoError \<Longrightarrow>
     setError reason string s = s\<lparr>m_errorReason := reason, m_errorString := string\<rparr>"
  by (simp add: setError_def)

theorem setError_records_without_surfacing_witness:
  "Initialization \<noteq> NoError
   \<and> emitted (setError Initialization ''Could not initialize text-to-speech engine.'' sapi_members) = []
   \<and> m_state (setError Initialization ''Could not initialize text-to-speech engine.'' sapi_members) = Ready"
  using setError_records_without_surfacing
    [of Initialization "''Could not initialize text-to-speech engine.''" sapi_members]
  by (simp add: sapi_members_def)

text \<open>
  So a constructor whose \<^verbatim>\<open>CoCreateInstance\<close> fails stores the reason and emits nothing,
  whatever the members were; the transition and the signal happen for the reason
  \<open>NoError\<close> instead.
\<close>

lemma new_sapi_failure_is_silent:
  "QTextToSpeechEngineSapi_new True False voicesFound members =
     members\<lparr>m_errorReason := Initialization,
       m_errorString := ''Could not initialize text-to-speech engine.''\<rparr>"
  by (simp add: QTextToSpeechEngineSapi_new_def setError_def)

lemma setError_NoError_surfaces:
  "m_state s \<noteq> Error \<Longrightarrow> setError NoError string s =
     s\<lparr>emitted := emitted s @ [stateChanged Error, errorOccurred NoError string],
       m_state := Error, m_errorReason := NoError, m_errorString := string\<rparr>"
  by (simp add: setError_def emit_def)

subsection \<open>say with an empty text\<close>

text \<open>
  Claim C6. The claim says that \<open>say\<close> with the empty text is a no-op. The mock engine
  has no check for the empty text: it enters \<open>Speaking\<close>, emits \<open>stateChanged Speaking\<close>
  and starts the timer, and the first tick then meets the assertion that the text is not
  empty.
\<close>

theorem say_empty_starts_speaking:
  "m_state mock_ready = Ready
   \<and> m_state (say [] mock_ready) = Speaking
   \<and> emitted (say [] mock_ready) = emitted mock_ready @ [stateChanged Speaking]
   \<and> m_timer (say [] mock_ready)
   \<and> tick (say [] mock_ready) = Inl Assert_text_length"
  by (simp add: tick_def say_def emit_def timerEvent_def mock_ready_def mock_members_def)

text \<open>The SAPI engine returns at once for the empty text.\<close>

lemma say_sapi_empty: "say_sapi prefix spoken [] s = s"
  by (simp add: say_sapi_def)

subsection \<open>Hello, world!\<close>

text \<open>
  Claim C7. With no pause request pending, \<open>say ''Hello, world!''\<close> followed by two
  ticks emits \<open>stateChanged Speaking\<close>, \<open>sayingWord 0 5\<close>, \<open>sayingWord 7 5\<close> and
  \<open>stateChanged Ready\<close>, in this order and nothing else, and further ticks emit nothing:
  the comma, the blank and the exclamation mark are skipped.
\<close>

theorem hello_world_word_boundaries:
  "\<not> m_pauseRequested s \<Longrightarrow>
     (\<exists>s'. ticks 2 (say ''Hello, world!'' s) = Inr s'
        \<and> emitted s' = emitted s @ [stateChanged Speaking, sayingWord 0 5, sayingWord 7 5,
                                      stateChanged Ready]
        \<and> m_state s' = Ready \<and> (\<forall>n. ticks n s' = Inr s'))"
  by (simp add: numeral_2_eq_2 tick_def say_def emit_def timerEvent_def indexOf_nonword_def
      isWordChar_def ticks_idle)

theorem hello_world_word_boundaries_witness:
  "\<not> m_pauseRequested mock_ready
   \<and> (\<exists>s'. ticks 2 (say ''Hello, world!'' mock_ready) = Inr s'
        \<and> emitted s' = [stateChanged Speaking, sayingWord 0 5, sayingWord 7 5, stateChanged Ready]
        \<and> m_state s' = Ready)"
proof -
  have h: "\<not> m_pauseRequested mock_ready" by (simp add: mock_ready_fields)
  show ?thesis
    using h hello_world_word_boundaries [OF h] by (auto simp: mock_ready_fields)
qed

subsection \<open>setVolume\<close>

text \<open>The SAPI engine reports success for the volume 2, which is above 1.\<close>

theorem setVolume_sapi_counterexample:
  "(2::real) > 1.0 \<and> fst (setVolume_sapi 2 sapi_members) = True"
  by (simp add: setVolume_sapi_def)

text \<open>
  Claim C8, amended. In the mock engine \<open>setVolume v\<close> fails for \<open>v\<close> below 0 or above 1
  and changes nothing, and succeeds for \<open>v\<close> from 0 to 1, after which \<open>volume\<close> is
  \<open>v\<close>. In the SAPI engine \<open>setVolume\<close> reports success for every \<open>v\<close>.
\<close>

theorem setVolume_range_check:
  "(v < 0 \<or> 1 < v \<longrightarrow> setVolume v s = (False, s))
   \<and> (0 \<le> v \<and> v \<le> 1 \<longrightarrow> fst (setVolume v s) \<and> volume (snd (setVolume v s)) = v)
   \<and> fst (setVolume_sapi v t)"
  by (auto simp: setVolume_def volume_def setVolume_sapi_def)

theorem setVolume_range_check_witness:
  "((2::real) < 0 \<or> (1::real) < 2) \<and> setVolume 2 mock_ready = (False, mock_ready)
   \<and> (0::real) \<le> 1 / 2 \<and> (1 / 2 :: real) \<le> 1
   \<and> fst (setVolume (1 / 2) mock_ready) \<and> volume (snd (setVolume (1 / 2) mock_ready)) = 1 / 2
   \<and> fst (setVolume_sapi 2 sapi_members)"
  using setVolume_range_check [of 2 mock_ready sapi_members]
    setVolume_range_check [of "1 / 2" mock_ready sapi_members]
  by simp

subsection \<open>resume\<close>

text \<open>
  In the SAPI engine, \<open>resume\<close> in state \<open>Speaking\<close> with a pause requested changes the
  engine, and \<open>resume\<close> in state \<open>Paused\<close> leaves the state at \<open>Paused\<close>.
\<close>

theorem resume_sapi_counterexample:
  "m_state sapi_pause_pending \<noteq> Paused
   \<and> resume_sapi sapi_pause_pending \<noteq> sapi_pause_pending
   \<and> m_state (resume_sapi (sapi_members\<lparr>m_state := Paused\<rparr>)) = Paused"
  by (simp add: resume_sapi_def sapi_pause_pending_def sapi_members_def call_voice_def)

lemma tick_after_resume:
  assumes "m_state s = Paused" "cursor_in_text s"
  shows "\<exists>s' n rest. tick (resume s) = Inr s'
     \<and> emitted s' = emitted s @ stateChanged Speaking # sayingWord (m_currentIndex s) n # rest"
proof -
  obtain p where c: "m_currentIndex s = int p" and p: "p < length (m_text s)"
    using assms(2) by (auto simp: cursor_in_text_def intro: that [of "nat (m_currentIndex s)"])
  let ?s = "resume s"
  have rs: "?s = s\<lparr>emitted := emitted s @ [stateChanged Speaking], m_state := Speaking, m_timer := True\<rparr>"
    using assms(1) by (simp add: resume_def emit_def)
  have f: "m_state ?s = Speaking" "m_timer ?s" "m_currentIndex ?s = int p" "p < length (m_text ?s)"
    using c p by (simp_all add: rs)
  show ?thesis
  proof (cases "dropWhile (\<lambda>c. \<not> isWordChar c) (dropWhile isWordChar (drop p (m_text ?s))) = []")
    case True
    show ?thesis
      unfolding tick_finish [OF f True] by (simp add: rs c)
  next
    case False
    show ?thesis
    proof (cases "m_pauseRequested ?s")
      case True
      show ?thesis
        unfolding tick_pause [OF f(1,2) True f(3,4) False] by (simp add: rs c)
    next
      case np: False
      show ?thesis
        unfolding tick_continue [OF f(1,2) np f(3,4) False] by (simp add: rs c)
    qed
  qed
qed

text \<open>
  Claim C9, amended. In the mock engine \<open>resume\<close> in state \<open>Paused\<close> starts the timer,
  enters \<open>Speaking\<close> and emits \<open>stateChanged Speaking\<close>, leaving text and cursor as
  they are, so that the next tick emits the \<open>sayingWord\<close> that starts at the same
  cursor; in any other state \<open>resume\<close> changes nothing. In the SAPI engine \<open>resume\<close>
  acts exactly when a pause is requested or the state is \<open>Paused\<close>: it withdraws the
  request and calls the native \<^verbatim>\<open>Resume\<close> once, and leaves \<open>m_state\<close> to a later
  notification; otherwise it changes nothing.
\<close>

theorem resume_continues_at_cursor:
  "(m_state s = Paused \<longrightarrow>
       resume s = s\<lparr>emitted := emitted s @ [stateChanged Speaking], m_state := Speaking,
                    m_timer := True\<rparr>)
   \<and> (m_state s = Paused \<and> cursor_in_text s \<longrightarrow>
        (\<exists>s' n rest. tick (resume s) = Inr s'
           \<and> emitted s' = emitted s @ stateChanged Speaking # sayingWord (m_currentIndex s) n # rest))
   \<and> (m_state s \<noteq> Paused \<longrightarrow> resume s = s)
   \<and> (m_pauseRequested t \<or> m_state t = Paused \<longrightarrow>
        resume_sapi t = t\<lparr>m_pauseRequested := False, m_voice_calls := m_voice_calls t @ [SpResume]\<rparr>)
   \<and> (\<not> m_pauseRequested t \<and> m_state t \<noteq> Paused \<longrightarrow> resume_sapi t = t)"
proof (intro conjI impI)
  show "resume s = s\<lparr>emitted := emitted s @ [stateChanged Speaking], m_state := Speaking,
                    m_timer := True\<rparr>" if "m_state s = Paused"
    using that by (simp add: resume_def emit_def)
  show "\<exists>s' n rest. tick (resume s) = Inr s'
           \<and> emitted s' = emitted s @ stateChanged Speaking # sayingWord (m_currentIndex s) n # rest"
    if "m_state s = Paused \<and> cursor_in_text s"
    using that tick_after_resume by blast
  show "resume s = s" if "m_state s \<noteq> Paused"
    using that by (simp add: resume_def)
  show "resume_sapi t = t\<lparr>m_pauseRequested := False, m_voice_calls := m_voice_calls t @ [SpResume]\<rparr>"
    if "m_pauseRequested t \<or> m_state t = Paused"
    using that by (auto simp: resume_sapi_def call_voice_def)
  show "resume_sapi t = t" if "\<not> m_pauseRequested t \<and> m_state t \<noteq> Paused"
    using that by (simp add: resume_sapi_def)
qed

lemma tick_resumed_a_b:
  "tick (resume paused_a_b) =
     Inr (paused_a_b\<lparr>emitted := [stateChanged Speaking, sayingWord 0 1, stateChanged Paused,
                                   stateChanged Speaking, sayingWord 2 1, stateChanged Ready],
            m_state := Ready, m_currentIndex := - 1\<rparr>)"
  by (simp add: tick_def timerEvent_def indexOf_nonword_def isWordChar_def emit_def resume_def
      paused_a_b_def speaking_a_b_fields)

theorem resume_continues_at_cursor_witness:
  "m_state paused_a_b = Paused \<and> cursor_in_text paused_a_b \<and> m_currentIndex paused_a_b = 2
   \<and> m_state (resume paused_a_b) = Speaking
   \<and> m_currentIndex (resume paused_a_b) = 2
   \<and> (\<exists>s'. tick (resume paused_a_b) = Inr s'
         \<and> emitted s' = emitted paused_a_b @ [stateChanged Speaking, sayingWord 2 1, stateChanged Ready])
   \<and> m_state mock_ready \<noteq> Paused \<and> resume mock_ready = mock_ready
   \<and> (m_pauseRequested sapi_pause_pending \<or> m_state sapi_pause_pending = Paused)
   \<and> m_voice_calls (resume_sapi sapi_pause_pending) = [SpResume]
   \<and> \<not> m_pauseRequested sapi_members \<and> m_state sapi_members \<noteq> Paused
   \<and> resume_sapi sapi_members = sapi_members"
proof -
  have a: "m_state paused_a_b = Paused" "cursor_in_text paused_a_b" "m_currentIndex paused_a_b = 2"
    "emitted paused_a_b = [stateChanged Speaking, sayingWord 0 1, stateChanged Paused]"
    by (simp_all add: paused_a_b_def speaking_a_b_fields cursor_in_text_def)
  have b: "m_state mock_ready \<noteq> Paused"
    by (simp add: mock_ready_fields)
  have c: "m_pauseRequested sapi_pause_pending \<or> m_state sapi_pause_pending = Paused"
    by (simp add: sapi_pause_pending_def)
  have d: "\<not> m_pauseRequested sapi_members \<and> m_state sapi_members \<noteq> Paused"
    "m_voice_calls sapi_pause_pending = []"
    by (simp_all add: sapi_members_def sapi_pause_pending_def)
  have r1: "resume paused_a_b = paused_a_b\<lparr>emitted := emitted paused_a_b @ [stateChanged Speaking],
      m_state := Speaking, m_timer := True\<rparr>"
    using a(1) resume_continues_at_cursor [where s = paused_a_b] by blast
  have r2: "resume mock_ready = mock_ready"
    using b resume_continues_at_cursor [where s = mock_ready] by blast
  have r3: "resume_sapi sapi_pause_pending = sapi_pause_pending\<lparr>m_pauseRequested := False,
      m_voice_calls := m_voice_calls sapi_pause_pending @ [SpResume]\<rparr>"
    using c resume_continues_at_cursor [where t = sapi_pause_pending] by blast
  have r4: "resume_sapi sapi_members = sapi_members"
    using d(1) resume_continues_at_cursor [where t = sapi_members] by blast
  have t: "\<exists>s'. tick (resume paused_a_b) = Inr s'
         \<and> emitted s' = emitted paused_a_b @ [stateChanged Speaking, sayingWord 2 1, stateChanged Ready]"
    by (simp add: tick_resumed_a_b a(4))
  have m: "m_state (resume paused_a_b) = Speaking" "m_currentIndex (resume paused_a_b) = 2"
    by (simp_all add: r1 a(3))
  have v: "m_voice_calls (resume_sapi sapi_pause_pending) = [SpResume]"
    by (simp add: r3 d(2))
  show ?thesis
    using a(1,2,3) b c d(1) r2 r4 t m v by blast
qed

end
